theory Spec2Isabelle
  imports Main "HOL-Library.Word" "HOL-Library.Sublist"
begin

section \<open>JavaScript strings\<close>

text \<open>
  A JavaScript string is a sequence of UTF-16 code units. The regular expression of
  \<^verbatim>\<open>getPosts\<close> has no \<^verbatim>\<open>u\<close> flag, so it works on code units, and its dot excludes two
  line terminators (U+2028, U+2029) that do not fit in a byte: the model keeps 16 bits.
\<close>

type_synonym code_unit = "16 word"
type_synonym jsstring = "code_unit list"

definition ch :: "char \<Rightarrow> code_unit" where
  "ch c = of_nat (of_char c)"

definition js :: "string \<Rightarrow> jsstring" where
  "js s = map ch s"

section \<open>The regular expression and \<^verbatim>\<open>String.prototype.replace\<close>\<close>

text \<open>
  \<^verbatim>\<open>f.name.replace(/.mdx$/, '')\<close>. The pattern is a sequence of five atoms: a dot (any
  code unit but a line terminator; the dot is not escaped in the source), the three
  letters, and the anchor \<^verbatim>\<open>$\<close>, which without the \<^verbatim>\<open>m\<close> flag holds at the end of the
  input only.
\<close>

definition LineTerminator :: "code_unit \<Rightarrow> bool" where
  "LineTerminator c \<longleftrightarrow> c = 0x000A \<or> c = 0x000D \<or> c = 0x2028 \<or> c = 0x2029"

datatype re_atom = AnyChar | Lit code_unit | EndOfInput

text \<open>Matching a sequence of atoms at the start of a string; the result is what follows
  the match.\<close>

fun match_here :: "re_atom list \<Rightarrow> jsstring \<Rightarrow> jsstring option" where
  "match_here [] s = Some s"
| "match_here (EndOfInput # r) s = (if s = [] then match_here r s else None)"
| "match_here (AnyChar # r) [] = None"
| "match_here (AnyChar # r) (c # cs) = (if LineTerminator c then None else match_here r cs)"
| "match_here (Lit a # r) [] = None"
| "match_here (Lit a # r) (c # cs) = (if c = a then match_here r cs else None)"

text \<open>
  \<^verbatim>\<open>replace\<close> with a regular expression that has no \<^verbatim>\<open>g\<close> flag: the leftmost match
  is replaced, the start positions being tried from 0 to the length of the string, and a
  string with no match is returned as it is.
\<close>

fun replace :: "jsstring \<Rightarrow> re_atom list \<Rightarrow> jsstring \<Rightarrow> jsstring" where
  "replace [] re rep = (case match_here re [] of Some rest \<Rightarrow> rep @ rest | None \<Rightarrow> [])"
| "replace (c # cs) re rep =
     (case match_here re (c # cs) of Some rest \<Rightarrow> rep @ rest | None \<Rightarrow> c # replace cs re rep)"

definition mdx_re :: "re_atom list" where
  "mdx_re = [AnyChar, Lit (ch CHR ''m''), Lit (ch CHR ''d''), Lit (ch CHR ''x''), EndOfInput]"

definition slug_of :: "jsstring \<Rightarrow> jsstring" where
  "slug_of fname = replace fname mdx_re []"

section \<open>The directory listing\<close>

text \<open>
  \<^verbatim>\<open>fs.readdirSync(dir, {withFileTypes: true})\<close> returns one \<^verbatim>\<open>Dirent\<close> (a name and a
  type) per entry of the directory, in the order the file system gives them, and throws
  a system error when the directory cannot be read. The state of the path
  \<^verbatim>\<open>process.cwd()/src/pages/blog\<close> is the input.
\<close>

datatype dirent_type =
  File | Directory | SymbolicLink | FIFO | Socket | CharacterDevice | BlockDevice | Unknown

record dirent =
  name :: jsstring
  type :: dirent_type

datatype fs_error = ENOENT | EACCES | ENOTDIR

datatype dir_node = NoSuchPath | Unreadable | NotADirectory | Dir "dirent list"

fun readdirSync :: "dir_node \<Rightarrow> fs_error + dirent list" where
  "readdirSync NoSuchPath = Inl ENOENT"
| "readdirSync Unreadable = Inl EACCES"
| "readdirSync NotADirectory = Inl ENOTDIR"
| "readdirSync (Dir dirFiles) = Inr dirFiles"

section \<open>Promises and dynamic import\<close>

text \<open>
  A settled promise, with the turn of the job queue at which it settled: the imports of
  the files are all started before any of them is awaited, and they settle in an order
  that the listing does not fix.
\<close>

datatype ('e, 'a) promise = Fulfilled nat 'a | Rejected nat 'e

text \<open>
  \<^verbatim>\<open>Promise.all\<close> is fulfilled with the values in the order of its input when every
  promise is fulfilled, and is rejected with the reason of the promise that is rejected
  first in time otherwise.
\<close>

fun first_rejection :: "('e, 'a) promise list \<Rightarrow> (nat \<times> 'e) option" where
  "first_rejection [] = None"
| "first_rejection (Fulfilled t v # ps) = first_rejection ps"
| "first_rejection (Rejected t e # ps) =
     (case first_rejection ps of
        None \<Rightarrow> Some (t, e)
      | Some (t', e') \<Rightarrow> if t' < t then Some (t', e') else Some (t, e))"

fun fulfilled_values :: "('e, 'a) promise list \<Rightarrow> 'a list" where
  "fulfilled_values [] = []"
| "fulfilled_values (Fulfilled t v # ps) = v # fulfilled_values ps"
| "fulfilled_values (Rejected t e # ps) = fulfilled_values ps"

definition Promise_all :: "('e, 'a) promise list \<Rightarrow> 'e + 'a list" where
  "Promise_all ps =
     (case first_rejection ps of
        Some (t, e) \<Rightarrow> Inl e
      | None \<Rightarrow> Inr (fulfilled_values ps))"

text \<open>
  A module namespace maps the names of the exports to their values; reading an export
  that the module does not have gives \<^verbatim>\<open>undefined\<close>, which is \<open>None\<close> here.
\<close>

type_synonym 'v namespace = "string \<rightharpoonup> 'v"

record ('e, 'v) world =
  blog_dir :: dir_node
  dynamic_import :: "jsstring \<Rightarrow> ('e, 'v namespace) promise"

section \<open>getPosts\<close>

record 'v post =
  meta :: "'v option"
  slug :: jsstring

definition specifier :: "dirent \<Rightarrow> jsstring" where
  "specifier f = js ''../pages/blog/'' @ name f"

text \<open>The callback of \<^verbatim>\<open>dirFiles.map\<close>: it awaits the import, reads the export
  \<^verbatim>\<open>meta\<close> of the module and derives the slug from the name.\<close>

definition getPosts_callback :: "('e, 'v) world \<Rightarrow> dirent \<Rightarrow> ('e, 'v post) promise" where
  "getPosts_callback w f =
     (case dynamic_import w (specifier f) of
        Rejected t e \<Rightarrow> Rejected t e
      | Fulfilled t ns \<Rightarrow> Fulfilled t \<lparr>meta = ns ''meta'', slug = slug_of (name f)\<rparr>)"

datatype 'e rejection = FsError fs_error | ImportError 'e

definition getPosts :: "('e, 'v) world \<Rightarrow> 'e rejection + 'v post list" where
  "getPosts w =
     (case readdirSync (blog_dir w) of
        Inl err \<Rightarrow> Inl (FsError err)
      | Inr dirFiles \<Rightarrow>
          (case Promise_all (map (getPosts_callback w) dirFiles) of
             Inl e \<Rightarrow> Inl (ImportError e)
           | Inr posts \<Rightarrow> Inr posts))"

section \<open>Documents\<close>

text \<open>The metadata of a post, as the index page reads it: \<^verbatim>\<open>p.meta.title\<close> and
  \<^verbatim>\<open>p.meta.date\<close>.\<close>

record metadata =
  title :: jsstring
  date :: jsstring

text \<open>A valid Document is a file whose module loads and exports \<^verbatim>\<open>meta\<close>.\<close>

definition valid_document :: "('e, 'v) world \<Rightarrow> dirent \<Rightarrow> bool" where
  "valid_document w f =
     (case dynamic_import w (specifier f) of
        Rejected t e \<Rightarrow> False
      | Fulfilled t ns \<Rightarrow> ns ''meta'' \<noteq> None)"

text \<open>The outcome of a promise, without the time at which it settled.\<close>

fun outcome :: "('e, 'a) promise \<Rightarrow> 'e + 'a" where
  "outcome (Fulfilled t v) = Inr v"
| "outcome (Rejected t e) = Inl e"

section \<open>Example blogs\<close>

text \<open>
  Concrete states of the blog directory and of the module loader, on which the
  functions above are evaluated. \<open>import_table\<close> loads the modules it lists; the import
  of anything else is rejected. \<open>blog_two\<close> takes the turns at which its two imports
  settle.
\<close>

definition hello_meta :: metadata where
  "hello_meta = \<lparr>title = js ''Hello'', date = js ''2020-01-01T00:00:00.000Z''\<rparr>"

definition second_meta :: metadata where
  "second_meta = \<lparr>title = js ''Second'', date = js ''2021-06-01T00:00:00.000Z''\<rparr>"

definition import_table ::
  "(jsstring \<times> (string, 'v namespace) promise) list \<Rightarrow> jsstring \<Rightarrow> (string, 'v namespace) promise" where
  "import_table tab s =
     (case map_of tab s of Some p \<Rightarrow> p | None \<Rightarrow> Rejected 0 ''Cannot find module'')"

definition hello_mdx :: dirent where
  "hello_mdx = \<lparr>name = js ''hello.mdx'', type = File\<rparr>"

definition second_mdx :: dirent where
  "second_mdx = \<lparr>name = js ''second.mdx'', type = File\<rparr>"

definition broken_mdx :: dirent where
  "broken_mdx = \<lparr>name = js ''broken.mdx'', type = File\<rparr>"

definition drafts :: dirent where
  "drafts = \<lparr>name = js ''drafts'', type = Directory\<rparr>"

definition blog_two :: "nat \<Rightarrow> nat \<Rightarrow> (string, metadata) world" where
  "blog_two t1 t2 =
     \<lparr>blog_dir = Dir [hello_mdx, second_mdx],
      dynamic_import = import_table
        [(js ''../pages/blog/hello.mdx'', Fulfilled t1 [''meta'' \<mapsto> hello_meta]),
         (js ''../pages/blog/second.mdx'', Fulfilled t2 [''meta'' \<mapsto> second_meta])]\<rparr>"

definition blog_no_meta :: "(string, metadata) world" where
  "blog_no_meta =
     \<lparr>blog_dir = Dir [hello_mdx],
      dynamic_import = import_table [(js ''../pages/blog/hello.mdx'', Fulfilled 1 Map.empty)]\<rparr>"

definition blog_broken :: "(string, metadata) world" where
  "blog_broken =
     \<lparr>blog_dir = Dir [hello_mdx, broken_mdx],
      dynamic_import = import_table
        [(js ''../pages/blog/hello.mdx'', Fulfilled 1 [''meta'' \<mapsto> hello_meta])]\<rparr>"

definition blog_subdir :: "(string, metadata) world" where
  "blog_subdir =
     \<lparr>blog_dir = Dir [drafts],
      dynamic_import = import_table
        [(js ''../pages/blog/drafts'', Fulfilled 1 [''meta'' \<mapsto> hello_meta])]\<rparr>"

section \<open>What the regular expression matches\<close>

lemma match_here_mdx:
  "match_here mdx_re s = Some r \<longleftrightarrow>
     r = [] \<and> (\<exists>c. \<not> LineTerminator c \<and> s = c # js ''mdx'')"
proof (cases s)
  case Nil
  then show ?thesis by (simp add: mdx_re_def)
next
  case (Cons c s1)
  show ?thesis
  proof (cases s1)
    case Nil
    with Cons show ?thesis by (simp add: mdx_re_def js_def)
  next
    case (Cons c1 s2)
    note s1 = this
    show ?thesis
    proof (cases s2)
      case Nil
      with s1 \<open>s = c # s1\<close> show ?thesis by (simp add: mdx_re_def js_def)
    next
      case (Cons c2 s3)
      note s2 = this
      show ?thesis
      proof (cases s3)
        case Nil
        with s1 s2 \<open>s = c # s1\<close> show ?thesis by (simp add: mdx_re_def js_def)
      next
        case (Cons c3 s4)
        with s1 s2 \<open>s = c # s1\<close> show ?thesis
          by (cases s4) (auto simp add: mdx_re_def js_def)
      qed
    qed
  qed
qed

lemma js_mdx_length: "length (js ''mdx'') = 3"
  by (simp add: js_def)

lemma replace_mdx_match:
  "\<not> LineTerminator c \<Longrightarrow> replace (p @ c # js ''mdx'') mdx_re [] = p"
proof (induction p)
  case Nil
  have "match_here mdx_re (c # js ''mdx'') = Some []"
    using Nil by (simp add: match_here_mdx)
  then show ?case by simp
next
  case (Cons a p)
  have "match_here mdx_re (a # p @ c # js ''mdx'') = None"
  proof (cases "match_here mdx_re (a # p @ c # js ''mdx'')")
    case None
    then show ?thesis .
  next
    case (Some r)
    then obtain c' where "a # p @ c # js ''mdx'' = c' # js ''mdx''"
      unfolding match_here_mdx by blast
    then have "length (p @ c # js ''mdx'') = length (js ''mdx'')" by simp
    then show ?thesis by simp
  qed
  with Cons show ?case by simp
qed

lemma replace_mdx_nomatch:
  "(\<And>p c. s = p @ c # js ''mdx'' \<Longrightarrow> LineTerminator c) \<Longrightarrow> replace s mdx_re [] = s"
proof (induction s)
  case Nil
  have "match_here mdx_re [] = None" by (simp add: mdx_re_def)
  then show ?case by simp
next
  case (Cons a s)
  have none: "match_here mdx_re (a # s) = None"
  proof (cases "match_here mdx_re (a # s)")
    case None
    then show ?thesis .
  next
    case (Some r)
    then obtain c where c: "\<not> LineTerminator c" "a # s = c # js ''mdx''"
      unfolding match_here_mdx by blast
    then have "a # s = [] @ c # js ''mdx''" by simp
    from Cons.prems [OF this] c show ?thesis by simp
  qed
  have "replace s mdx_re [] = s"
  proof (rule Cons.IH)
    fix p c
    assume "s = p @ c # js ''mdx''"
    then have "a # s = (a # p) @ c # js ''mdx''" by simp
    then show "LineTerminator c" by (rule Cons.prems)
  qed
  with none show ?case by simp
qed

lemma dot_not_LineTerminator: "\<not> LineTerminator (ch CHR ''.'')"
  by (simp add: LineTerminator_def ch_def)

lemma js_dot_mdx: "js ''.mdx'' = ch CHR ''.'' # js ''mdx''"
  by (simp add: js_def)

lemma slug_of_strip:
  "\<not> LineTerminator c \<Longrightarrow> slug_of (p @ c # js ''mdx'') = p"
  by (simp add: slug_of_def replace_mdx_match)

lemma slug_of_unchanged:
  "(\<And>p c. s = p @ c # js ''mdx'' \<Longrightarrow> LineTerminator c) \<Longrightarrow> slug_of s = s"
  unfolding slug_of_def by (rule replace_mdx_nomatch)

lemma slug_of_examples:
  "slug_of (js ''a.mdx.txt'') = js ''a.mdx.txt''"
  "slug_of (js ''p.mdx.mdx'') = js ''p.mdx''"
  "slug_of (js ''index.tsx'') = js ''index.tsx''"
  by (simp_all add: slug_of_def mdx_re_def js_def ch_def LineTerminator_def)

section \<open>What \<^verbatim>\<open>Promise.all\<close> and \<^verbatim>\<open>getPosts\<close> return\<close>

lemma Promise_all_Inr_iff:
  "Promise_all ps = Inr vs \<longleftrightarrow> map outcome ps = map Inr vs"
proof (induction ps arbitrary: vs rule: first_rejection.induct)
  case 1
  show ?case by (auto simp add: Promise_all_def)
next
  case (2 t v ps)
  have "Promise_all (Fulfilled t v # ps) = Inr vs \<longleftrightarrow>
        (\<exists>vs'. vs = v # vs' \<and> Promise_all ps = Inr vs')"
    by (auto simp add: Promise_all_def split: option.splits)
  also have "\<dots> \<longleftrightarrow> (\<exists>vs'. vs = v # vs' \<and> map outcome ps = map Inr vs')"
    using 2 by simp
  also have "\<dots> \<longleftrightarrow> map outcome (Fulfilled t v # ps) = map Inr vs"
    by (cases vs) auto
  finally show ?case .
next
  case (3 t e ps)
  have "Promise_all (Rejected t e # ps) \<noteq> Inr vs"
    by (simp add: Promise_all_def split: option.splits)
  moreover have "map outcome (Rejected t e # ps) \<noteq> map Inr vs"
    by (cases vs) auto
  ultimately show ?case by simp
qed

lemma first_rejection_mem:
  "first_rejection ps = Some (t, e) \<Longrightarrow> Rejected t e \<in> set ps"
  by (induction ps arbitrary: t e rule: first_rejection.induct)
     (auto split: option.splits if_splits)

lemma Promise_all_Inl_mem:
  "Promise_all ps = Inl e \<Longrightarrow> \<exists>t. Rejected t e \<in> set ps"
  by (auto simp add: Promise_all_def split: option.splits dest: first_rejection_mem)

lemma first_rejection_None:
  "first_rejection ps = None \<Longrightarrow> Rejected t e \<notin> set ps"
  by (induction ps rule: first_rejection.induct) (auto split: option.splits if_splits)

lemma Promise_all_rejects:
  "Rejected t e \<in> set ps \<Longrightarrow> \<exists>e'. Promise_all ps = Inl e'"
  by (cases "first_rejection ps") (auto simp add: Promise_all_def dest: first_rejection_None)

lemma outcome_callback:
  "outcome (getPosts_callback w f) =
     (case outcome (dynamic_import w (specifier f)) of
        Inl e \<Rightarrow> Inl e
      | Inr ns \<Rightarrow> Inr \<lparr>meta = ns ''meta'', slug = slug_of (name f)\<rparr>)"
  by (cases "dynamic_import w (specifier f)") (simp_all add: getPosts_callback_def)

lemma getPosts_Dir:
  "blog_dir w = Dir ds \<Longrightarrow>
   getPosts w = (case Promise_all (map (getPosts_callback w) ds) of
                   Inl e \<Rightarrow> Inl (ImportError e) | Inr posts \<Rightarrow> Inr posts)"
  by (simp add: getPosts_def)

lemma getPosts_Inr_iff:
  assumes "blog_dir w = Dir ds"
  shows "getPosts w = Inr posts \<longleftrightarrow> map (outcome \<circ> getPosts_callback w) ds = map Inr posts"
proof -
  have "getPosts w = Inr posts \<longleftrightarrow> Promise_all (map (getPosts_callback w) ds) = Inr posts"
    by (cases "Promise_all (map (getPosts_callback w) ds)") (simp_all add: getPosts_Dir [OF assms])
  then show ?thesis by (simp add: Promise_all_Inr_iff)
qed

lemma all_fulfilled_values:
  "(\<And>x. x \<in> set xs \<Longrightarrow> \<exists>v. g x = Inr v) \<Longrightarrow> \<exists>vs. map g xs = map Inr vs"
proof (induction xs)
  case Nil
  show ?case by simp
next
  case (Cons x xs)
  then obtain v where v: "g x = Inr v" by auto
  from Cons obtain vs where "map g xs = map Inr vs" by auto
  with v have "map g (x # xs) = map Inr (v # vs)" by simp
  then show ?case by blast
qed

lemma getPosts_all_fulfilled:
  assumes dir: "blog_dir w = Dir ds"
    and ok: "\<And>f. f \<in> set ds \<Longrightarrow> \<exists>t ns. dynamic_import w (specifier f) = Fulfilled t ns"
  shows "\<exists>posts. getPosts w = Inr posts \<and> length posts = length ds"
proof -
  have "\<exists>v. (outcome \<circ> getPosts_callback w) f = Inr v" if "f \<in> set ds" for f
    using ok [OF that] by (auto simp add: getPosts_callback_def)
  then obtain posts where posts: "map (outcome \<circ> getPosts_callback w) ds = map Inr posts"
    using all_fulfilled_values [of ds "outcome \<circ> getPosts_callback w"] by blast
  then have "length ds = length posts"
    by (rule map_eq_imp_length_eq)
  with posts dir show ?thesis by (auto simp add: getPosts_Inr_iff)
qed

lemma getPosts_Inr_length:
  "blog_dir w = Dir ds \<Longrightarrow> getPosts w = Inr posts \<Longrightarrow> length posts = length ds"
  by (auto simp add: getPosts_Inr_iff dest: map_eq_imp_length_eq)

lemma getPosts_Inr_nth:
  assumes dir: "blog_dir w = Dir ds" and res: "getPosts w = Inr posts" and i: "i < length ds"
  shows "\<exists>t ns. dynamic_import w (specifier (ds ! i)) = Fulfilled t ns
           \<and> posts ! i = \<lparr>meta = ns ''meta'', slug = slug_of (name (ds ! i))\<rparr>"
proof -
  from dir res have eq: "map (outcome \<circ> getPosts_callback w) ds = map Inr posts"
    by (simp add: getPosts_Inr_iff)
  then have len: "length ds = length posts" by (rule map_eq_imp_length_eq)
  from eq have "map (outcome \<circ> getPosts_callback w) ds ! i = map Inr posts ! i" by simp
  with i len have "outcome (getPosts_callback w (ds ! i)) = Inr (posts ! i)" by simp
  then show ?thesis
    by (cases "dynamic_import w (specifier (ds ! i))") (auto simp add: getPosts_callback_def)
qed

lemma getPosts_entries:
  assumes dir: "blog_dir w = Dir ds"
    and ok: "\<And>f. f \<in> set ds \<Longrightarrow> \<exists>t ns. dynamic_import w (specifier f) = Fulfilled t ns"
  shows "\<exists>posts. getPosts w = Inr posts \<and> length posts = length ds
           \<and> (\<forall>i < length ds. \<exists>t ns.
                  dynamic_import w (specifier (ds ! i)) = Fulfilled t ns
                \<and> posts ! i = \<lparr>meta = ns ''meta'', slug = slug_of (name (ds ! i))\<rparr>)"
proof -
  from getPosts_all_fulfilled [OF dir ok]
  obtain posts where posts: "getPosts w = Inr posts" "length posts = length ds" by blast
  have "\<exists>t ns. dynamic_import w (specifier (ds ! i)) = Fulfilled t ns
           \<and> posts ! i = \<lparr>meta = ns ''meta'', slug = slug_of (name (ds ! i))\<rparr>"
    if "i < length ds" for i
    using dir posts(1) that by (rule getPosts_Inr_nth)
  with posts show ?thesis by blast
qed

lemma getPosts_rejected:
  assumes dir: "blog_dir w = Dir ds" and f: "f \<in> set ds"
    and rej: "dynamic_import w (specifier f) = Rejected t e"
  shows "\<exists>f' \<in> set ds. \<exists>t' e'. dynamic_import w (specifier f') = Rejected t' e'
           \<and> getPosts w = Inl (ImportError e')"
proof -
  let ?ps = "map (getPosts_callback w) ds"
  from rej have "getPosts_callback w f = Rejected t e" by (simp add: getPosts_callback_def)
  with f have "Rejected t e \<in> set ?ps" by force
  from Promise_all_rejects [OF this]
  obtain e' where e': "Promise_all ?ps = Inl e'" ..
  from Promise_all_Inl_mem [OF this]
  obtain t' where "Rejected t' e' \<in> set ?ps" ..
  then obtain f' where f': "f' \<in> set ds" "getPosts_callback w f' = Rejected t' e'" by auto
  from f'(2) have "dynamic_import w (specifier f') = Rejected t' e'"
    by (cases "dynamic_import w (specifier f')") (auto simp add: getPosts_callback_def)
  moreover from dir e' have "getPosts w = Inl (ImportError e')" by (simp add: getPosts_Dir)
  ultimately show ?thesis using f'(1) by blast
qed

lemma callback_name:
  assumes "name f = name f'" and "dynamic_import w = dynamic_import w'"
  shows "getPosts_callback w f = getPosts_callback w' f'"
proof -
  from assms(1) have "specifier f = specifier f'" by (simp add: specifier_def)
  with assms show ?thesis
    unfolding getPosts_callback_def by (cases "dynamic_import w' (specifier f')") simp_all
qed

lemma map_callback_names:
  assumes "map name ds = map name ds'" and imp: "dynamic_import w = dynamic_import w'"
  shows "map (getPosts_callback w) ds = map (getPosts_callback w') ds'"
  using assms(1)
proof (induction ds arbitrary: ds')
  case Nil
  then show ?case by simp
next
  case (Cons f ds)
  then obtain f' ds1 where ds': "ds' = f' # ds1" by (cases ds') auto
  with Cons.prems have n: "name f = name f'" and "map name ds = map name ds1" by simp_all
  then have "map (getPosts_callback w) ds = map (getPosts_callback w') ds1"
    by (simp only: Cons.IH)
  moreover have "getPosts_callback w f = getPosts_callback w' f'"
    using n imp by (rule callback_name)
  ultimately show ?case unfolding ds' by simp
qed

section \<open>The example blogs, evaluated\<close>

lemma slug_hello: "slug_of (js ''hello.mdx'') = js ''hello''"
  by (simp add: slug_of_def mdx_re_def js_def ch_def LineTerminator_def)

lemma slug_second: "slug_of (js ''second.mdx'') = js ''second''"
  by (simp add: slug_of_def mdx_re_def js_def ch_def LineTerminator_def)

lemma slug_drafts: "slug_of (js ''drafts'') = js ''drafts''"
  by (simp add: slug_of_def mdx_re_def js_def ch_def LineTerminator_def)

lemma specifier_hello: "specifier hello_mdx = js ''../pages/blog/hello.mdx''"
  by (simp add: specifier_def hello_mdx_def js_def)

lemma specifier_second: "specifier second_mdx = js ''../pages/blog/second.mdx''"
  by (simp add: specifier_def second_mdx_def js_def)

lemma specifier_broken: "specifier broken_mdx = js ''../pages/blog/broken.mdx''"
  by (simp add: specifier_def broken_mdx_def js_def)

lemma specifier_drafts: "specifier drafts = js ''../pages/blog/drafts''"
  by (simp add: specifier_def drafts_def js_def)

lemma second_not_hello: "js ''../pages/blog/second.mdx'' \<noteq> js ''../pages/blog/hello.mdx''"
  by (simp add: js_def ch_def)

lemma broken_not_hello: "js ''../pages/blog/broken.mdx'' \<noteq> js ''../pages/blog/hello.mdx''"
  by (simp add: js_def ch_def)

lemma import_blog_two:
  "dynamic_import (blog_two t1 t2) (specifier hello_mdx) = Fulfilled t1 [''meta'' \<mapsto> hello_meta]"
  "dynamic_import (blog_two t1 t2) (specifier second_mdx) = Fulfilled t2 [''meta'' \<mapsto> second_meta]"
  by (simp_all add: blog_two_def import_table_def specifier_hello specifier_second second_not_hello)

lemma import_blog_broken:
  "dynamic_import blog_broken (specifier hello_mdx) = Fulfilled 1 [''meta'' \<mapsto> hello_meta]"
  "dynamic_import blog_broken (specifier broken_mdx) = Rejected 0 ''Cannot find module''"
  by (simp_all add: blog_broken_def import_table_def specifier_hello specifier_broken broken_not_hello)

lemma import_blog_no_meta:
  "dynamic_import blog_no_meta (specifier hello_mdx) = Fulfilled 1 Map.empty"
  by (simp add: blog_no_meta_def import_table_def specifier_hello)

lemma import_blog_subdir:
  "dynamic_import blog_subdir (specifier drafts) = Fulfilled 1 [''meta'' \<mapsto> hello_meta]"
  by (simp add: blog_subdir_def import_table_def specifier_drafts)

lemma dir_examples:
  "blog_dir (blog_two t1 t2) = Dir [hello_mdx, second_mdx]"
  "blog_dir blog_broken = Dir [hello_mdx, broken_mdx]"
  "blog_dir blog_no_meta = Dir [hello_mdx]"
  "blog_dir blog_subdir = Dir [drafts]"
  by (simp_all add: blog_two_def blog_broken_def blog_no_meta_def blog_subdir_def)

lemma name_examples:
  "name hello_mdx = js ''hello.mdx''"
  "name second_mdx = js ''second.mdx''"
  "name broken_mdx = js ''broken.mdx''"
  "name drafts = js ''drafts''"
  by (simp_all add: hello_mdx_def second_mdx_def broken_mdx_def drafts_def)

lemma getPosts_blog_two:
  "getPosts (blog_two t1 t2) =
     Inr [\<lparr>meta = Some hello_meta, slug = js ''hello''\<rparr>,
          \<lparr>meta = Some second_meta, slug = js ''second''\<rparr>]"
  by (simp add: getPosts_def Promise_all_def getPosts_callback_def dir_examples import_blog_two
      name_examples slug_hello slug_second)

lemma getPosts_blog_no_meta:
  "getPosts blog_no_meta = Inr [\<lparr>meta = None, slug = js ''hello''\<rparr>]"
  by (simp add: getPosts_def Promise_all_def getPosts_callback_def dir_examples
      import_blog_no_meta name_examples slug_hello)

lemma getPosts_blog_subdir:
  "getPosts blog_subdir = Inr [\<lparr>meta = Some hello_meta, slug = js ''drafts''\<rparr>]"
  by (simp add: getPosts_def Promise_all_def getPosts_callback_def dir_examples
      import_blog_subdir name_examples slug_drafts)

lemma getPosts_blog_broken:
  "getPosts blog_broken = Inl (ImportError ''Cannot find module'')"
  by (simp add: getPosts_def Promise_all_def getPosts_callback_def dir_examples
      import_blog_broken name_examples slug_hello)

section \<open>The number of Index Entries\<close>

text \<open>
  C1. When the content directory holds N entries and every one of them is a valid
  Document (its module loads and exports \<^verbatim>\<open>meta\<close>), \<^verbatim>\<open>getPosts\<close> returns a list of
  exactly N Index Entries, one per directory entry: the entry at position i is the record
  made of the \<^verbatim>\<open>meta\<close> exported by the module of the i-th directory entry and of the slug
  of its name.
\<close>

theorem getPosts_count:
  assumes "blog_dir w = Dir ds" and "\<forall>f \<in> set ds. valid_document w f"
  shows "\<exists>posts. getPosts w = Inr posts \<and> length posts = length ds
           \<and> (\<forall>i < length ds. \<exists>t ns m.
                  dynamic_import w (specifier (ds ! i)) = Fulfilled t ns
                \<and> ns ''meta'' = Some m
                \<and> posts ! i = \<lparr>meta = Some m, slug = slug_of (name (ds ! i))\<rparr>)"
proof -
  have valid: "\<exists>t ns m. dynamic_import w (specifier f) = Fulfilled t ns \<and> ns ''meta'' = Some m"
    if "f \<in> set ds" for f
  proof -
    from assms(2) that have "valid_document w f" by blast
    then show ?thesis
      by (cases "dynamic_import w (specifier f)") (auto simp add: valid_document_def)
  qed
  then have "\<exists>t ns. dynamic_import w (specifier f) = Fulfilled t ns" if "f \<in> set ds" for f
    using that by blast
  from getPosts_entries [OF assms(1) this]
  obtain posts where posts: "getPosts w = Inr posts" "length posts = length ds"
    and nth: "\<And>i. i < length ds \<Longrightarrow> \<exists>t ns.
                  dynamic_import w (specifier (ds ! i)) = Fulfilled t ns
                \<and> posts ! i = \<lparr>meta = ns ''meta'', slug = slug_of (name (ds ! i))\<rparr>"
    by blast
  have "\<exists>t ns m. dynamic_import w (specifier (ds ! i)) = Fulfilled t ns
                \<and> ns ''meta'' = Some m
                \<and> posts ! i = \<lparr>meta = Some m, slug = slug_of (name (ds ! i))\<rparr>"
    if i: "i < length ds" for i
  proof -
    from nth [OF i] obtain t ns where
      *: "dynamic_import w (specifier (ds ! i)) = Fulfilled t ns"
         "posts ! i = \<lparr>meta = ns ''meta'', slug = slug_of (name (ds ! i))\<rparr>" by blast
    from i have "ds ! i \<in> set ds" by simp
    from valid [OF this] *(1) obtain m where "ns ''meta'' = Some m" by auto
    with * show ?thesis by auto
  qed
  with posts show ?thesis by blast
qed

text \<open>
  C1, at a directory of two valid Documents whose imports settle in the reverse of the
  listing order.
\<close>

theorem getPosts_count_witness:
  "blog_dir (blog_two 5 3) = Dir [hello_mdx, second_mdx]
   \<and> valid_document (blog_two 5 3) hello_mdx \<and> valid_document (blog_two 5 3) second_mdx
   \<and> (\<exists>posts. getPosts (blog_two 5 3) = Inr posts \<and> length posts = 2
         \<and> posts ! 0 = \<lparr>meta = Some hello_meta, slug = js ''hello''\<rparr>
         \<and> posts ! 1 = \<lparr>meta = Some second_meta, slug = js ''second''\<rparr>)"
proof -
  have d: "blog_dir (blog_two 5 3) = Dir [hello_mdx, second_mdx]"
    by (simp add: dir_examples)
  have v: "valid_document (blog_two 5 3) hello_mdx" "valid_document (blog_two 5 3) second_mdx"
    by (simp_all add: valid_document_def import_blog_two)
  then have "\<forall>f \<in> set [hello_mdx, second_mdx]. valid_document (blog_two 5 3) f" by simp
  from getPosts_count [OF d this]
  obtain posts where posts: "getPosts (blog_two 5 3) = Inr posts"
      "length posts = length [hello_mdx, second_mdx]"
    and nth: "\<forall>i < length [hello_mdx, second_mdx]. \<exists>t ns m.
                  dynamic_import (blog_two 5 3) (specifier ([hello_mdx, second_mdx] ! i)) = Fulfilled t ns
                \<and> ns ''meta'' = Some m
                \<and> posts ! i = \<lparr>meta = Some m, slug = slug_of (name ([hello_mdx, second_mdx] ! i))\<rparr>"
    by blast
  from nth [rule_format, of 0]
  have 0: "posts ! 0 = \<lparr>meta = Some hello_meta, slug = js ''hello''\<rparr>"
    by (auto simp add: import_blog_two name_examples slug_hello)
  from nth [rule_format, of 1]
  have 1: "posts ! 1 = \<lparr>meta = Some second_meta, slug = js ''second''\<rparr>"
    by (auto simp add: import_blog_two name_examples slug_second)
  from posts(2) have "length posts = 2" by simp
  with posts(1) 0 1 have "\<exists>posts. getPosts (blog_two 5 3) = Inr posts \<and> length posts = 2
         \<and> posts ! 0 = \<lparr>meta = Some hello_meta, slug = js ''hello''\<rparr>
         \<and> posts ! 1 = \<lparr>meta = Some second_meta, slug = js ''second''\<rparr>" by blast
  with d v show ?thesis by (intro conjI)
qed

text \<open>
  C8. On a content directory with no entries \<^verbatim>\<open>getPosts\<close> returns the empty list, not an
  error.
\<close>

theorem getPosts_empty_dir:
  "getPosts (w\<lparr>blog_dir := Dir []\<rparr>) = Inr []"
  by (simp add: getPosts_def Promise_all_def)

section \<open>Failures\<close>

text \<open>
  C9. When the content directory does not exist, \<^verbatim>\<open>readdirSync\<close> throws \<^verbatim>\<open>ENOENT\<close>
  (the specification's DirectoryNotFound), and when it cannot be read, \<^verbatim>\<open>EACCES\<close>
  (PermissionDenied); \<^verbatim>\<open>getPosts\<close> does not catch the error, so it fails with it and
  returns no Index Entries.
\<close>

theorem getPosts_readdir_fails:
  "getPosts (w\<lparr>blog_dir := NoSuchPath\<rparr>) = Inl (FsError ENOENT)
   \<and> getPosts (w\<lparr>blog_dir := Unreadable\<rparr>) = Inl (FsError EACCES)"
  by (simp add: getPosts_def)

text \<open>
  C2, as stated, fails: a Document whose metadata block is missing is a module without
  the export \<^verbatim>\<open>meta\<close>; its import is fulfilled, reading \<^verbatim>\<open>meta\<close> gives \<^verbatim>\<open>undefined\<close>, and
  \<^verbatim>\<open>getPosts\<close> returns an Index Entry for it instead of failing.
\<close>

theorem missing_meta_counterexample:
  "\<not> valid_document blog_no_meta hello_mdx
   \<and> blog_dir blog_no_meta = Dir [hello_mdx]
   \<and> getPosts blog_no_meta = Inr [\<lparr>meta = None, slug = js ''hello''\<rparr>]"
  by (simp add: valid_document_def import_blog_no_meta dir_examples getPosts_blog_no_meta)

text \<open>
  C2, amended. When the import of some entry of the directory is rejected,
  \<^verbatim>\<open>getPosts\<close> is rejected with the import error of an entry whose import was
  rejected, and returns no Index Entries. When every import is fulfilled, with or without
  the export \<^verbatim>\<open>meta\<close>, \<^verbatim>\<open>getPosts\<close> returns one Index Entry per entry of the directory:
  the entry at position i has the slug of the i-th name and the \<^verbatim>\<open>meta\<close> of its module,
  which is \<^verbatim>\<open>undefined\<close> where the module does not export it.
\<close>

theorem getPosts_import_rejected:
  assumes "blog_dir w = Dir ds"
  shows "(\<forall>f \<in> set ds. \<forall>t e. dynamic_import w (specifier f) = Rejected t e \<longrightarrow>
            (\<exists>f' \<in> set ds. \<exists>t' e'. dynamic_import w (specifier f') = Rejected t' e'
                \<and> getPosts w = Inl (ImportError e')))
       \<and> ((\<forall>f \<in> set ds. \<exists>t ns. dynamic_import w (specifier f) = Fulfilled t ns) \<longrightarrow>
            (\<exists>posts. getPosts w = Inr posts \<and> length posts = length ds
               \<and> (\<forall>i < length ds. \<exists>t ns.
                      dynamic_import w (specifier (ds ! i)) = Fulfilled t ns
                    \<and> slug (posts ! i) = slug_of (name (ds ! i))
                    \<and> meta (posts ! i) = ns ''meta''
                    \<and> (''meta'' \<notin> dom ns \<longrightarrow> meta (posts ! i) = None))))"
proof (intro conjI ballI allI impI)
  fix f t e
  assume "f \<in> set ds" "dynamic_import w (specifier f) = Rejected t e"
  with assms show "\<exists>f' \<in> set ds. \<exists>t' e'. dynamic_import w (specifier f') = Rejected t' e'
      \<and> getPosts w = Inl (ImportError e')"
    by (rule getPosts_rejected)
next
  assume "\<forall>f \<in> set ds. \<exists>t ns. dynamic_import w (specifier f) = Fulfilled t ns"
  then have "\<exists>t ns. dynamic_import w (specifier f) = Fulfilled t ns" if "f \<in> set ds" for f
    using that by blast
  from getPosts_entries [OF assms this]
  obtain posts where posts: "getPosts w = Inr posts" "length posts = length ds"
    and nth: "\<And>i. i < length ds \<Longrightarrow> \<exists>t ns.
                  dynamic_import w (specifier (ds ! i)) = Fulfilled t ns
                \<and> posts ! i = \<lparr>meta = ns ''meta'', slug = slug_of (name (ds ! i))\<rparr>"
    by blast
  have "\<exists>t ns. dynamic_import w (specifier (ds ! i)) = Fulfilled t ns
                    \<and> slug (posts ! i) = slug_of (name (ds ! i))
                    \<and> meta (posts ! i) = ns ''meta''
                    \<and> (''meta'' \<notin> dom ns \<longrightarrow> meta (posts ! i) = None)"
    if "i < length ds" for i
  proof -
    from nth [OF that] obtain t ns where
      *: "dynamic_import w (specifier (ds ! i)) = Fulfilled t ns"
         "posts ! i = \<lparr>meta = ns ''meta'', slug = slug_of (name (ds ! i))\<rparr>" by blast
    from *(2) have "slug (posts ! i) = slug_of (name (ds ! i))" "meta (posts ! i) = ns ''meta''"
      by simp_all
    moreover from this(2) have "''meta'' \<notin> dom ns \<longrightarrow> meta (posts ! i) = None"
      by (simp add: domIff)
    ultimately show ?thesis using *(1) by blast
  qed
  with posts show "\<exists>posts. getPosts w = Inr posts \<and> length posts = length ds
               \<and> (\<forall>i < length ds. \<exists>t ns.
                      dynamic_import w (specifier (ds ! i)) = Fulfilled t ns
                    \<and> slug (posts ! i) = slug_of (name (ds ! i))
                    \<and> meta (posts ! i) = ns ''meta''
                    \<and> (''meta'' \<notin> dom ns \<longrightarrow> meta (posts ! i) = None))"
    by blast
qed

text \<open>
  C2, amended, at a directory with one module that cannot be found, and at a directory
  whose only module has no \<^verbatim>\<open>meta\<close>.
\<close>

theorem getPosts_import_rejected_witness:
  "blog_dir blog_broken = Dir [hello_mdx, broken_mdx]
   \<and> dynamic_import blog_broken (specifier broken_mdx) = Rejected 0 ''Cannot find module''
   \<and> (\<exists>e'. getPosts blog_broken = Inl (ImportError e'))
   \<and> blog_dir blog_no_meta = Dir [hello_mdx]
   \<and> dynamic_import blog_no_meta (specifier hello_mdx) = Fulfilled 1 Map.empty
   \<and> (\<exists>posts. getPosts blog_no_meta = Inr posts \<and> length posts = 1
         \<and> slug (posts ! 0) = js ''hello'' \<and> meta (posts ! 0) = None)"
proof -
  have d: "blog_dir blog_broken = Dir [hello_mdx, broken_mdx]"
    by (simp add: dir_examples)
  have r: "dynamic_import blog_broken (specifier broken_mdx) = Rejected 0 ''Cannot find module''"
    by (simp add: import_blog_broken)
  have m: "broken_mdx \<in> set [hello_mdx, broken_mdx]" by simp
  from getPosts_import_rejected [OF d, THEN conjunct1, rule_format, OF m r]
  have 1: "\<exists>e'. getPosts blog_broken = Inl (ImportError e')" by blast
  have d': "blog_dir blog_no_meta = Dir [hello_mdx]"
    by (simp add: dir_examples)
  have i: "dynamic_import blog_no_meta (specifier hello_mdx) = Fulfilled 1 Map.empty"
    by (simp add: import_blog_no_meta)
  then have "\<forall>f \<in> set [hello_mdx]. \<exists>t ns. dynamic_import blog_no_meta (specifier f) = Fulfilled t ns"
    by simp
  from getPosts_import_rejected [OF d', THEN conjunct2, THEN mp, OF this]
  obtain posts where posts: "getPosts blog_no_meta = Inr posts"
      "length posts = length [hello_mdx]"
    and nth: "\<forall>i < length [hello_mdx]. \<exists>t ns.
                  dynamic_import blog_no_meta (specifier ([hello_mdx] ! i)) = Fulfilled t ns
                \<and> slug (posts ! i) = slug_of (name ([hello_mdx] ! i))
                \<and> meta (posts ! i) = ns ''meta''
                \<and> (''meta'' \<notin> dom ns \<longrightarrow> meta (posts ! i) = None)"
    by blast
  from nth [rule_format, of 0]
  have "slug (posts ! 0) = js ''hello''" "meta (posts ! 0) = None"
    by (auto simp add: i name_examples slug_hello)
  with posts have 2: "\<exists>posts. getPosts blog_no_meta = Inr posts \<and> length posts = 1
         \<and> slug (posts ! 0) = js ''hello'' \<and> meta (posts ! 0) = None" by simp
  from d r 1 d' i 2 show ?thesis by (intro conjI)
qed

section \<open>Entries that are not regular files\<close>

text \<open>
  C5, as stated, fails: the listing is not filtered. A subdirectory whose import is
  fulfilled (it holds an index module) contributes an Index Entry.
\<close>

theorem subdirectory_counterexample:
  "type drafts = Directory
   \<and> blog_dir blog_subdir = Dir [drafts]
   \<and> getPosts blog_subdir = Inr [\<lparr>meta = Some hello_meta, slug = js ''drafts''\<rparr>]"
  by (simp add: dir_examples getPosts_blog_subdir) (simp add: drafts_def)

text \<open>
  C5, amended. \<^verbatim>\<open>getPosts\<close> never reads the type of a directory entry: two listings with
  the same names in the same order give the same result whatever the types of their
  entries, and a result that is a list of Index Entries has one per entry of the listing,
  regular file or not.
\<close>

theorem getPosts_ignores_type:
  assumes "map name ds = map name ds'"
  shows "getPosts (w\<lparr>blog_dir := Dir ds\<rparr>) = getPosts (w\<lparr>blog_dir := Dir ds'\<rparr>)
       \<and> (\<forall>posts. getPosts (w\<lparr>blog_dir := Dir ds\<rparr>) = Inr posts \<longrightarrow> length posts = length ds)"
proof
  have "map (getPosts_callback (w\<lparr>blog_dir := Dir ds\<rparr>)) ds
      = map (getPosts_callback (w\<lparr>blog_dir := Dir ds'\<rparr>)) ds'"
    using assms by (rule map_callback_names) simp
  then show "getPosts (w\<lparr>blog_dir := Dir ds\<rparr>) = getPosts (w\<lparr>blog_dir := Dir ds'\<rparr>)"
    by (simp add: getPosts_def)
  show "\<forall>posts. getPosts (w\<lparr>blog_dir := Dir ds\<rparr>) = Inr posts \<longrightarrow> length posts = length ds"
  proof (intro allI impI)
    fix posts
    assume "getPosts (w\<lparr>blog_dir := Dir ds\<rparr>) = Inr posts"
    moreover have "blog_dir (w\<lparr>blog_dir := Dir ds\<rparr>) = Dir ds" by simp
    ultimately show "length posts = length ds" by (rule getPosts_Inr_length [rotated])
  qed
qed

text \<open>
  C5, amended, at the subdirectory \<^verbatim>\<open>drafts\<close> and at a regular file of the same name.
\<close>

theorem getPosts_ignores_type_witness:
  "map name [drafts] = map name [drafts\<lparr>type := File\<rparr>]
   \<and> getPosts (blog_subdir\<lparr>blog_dir := Dir [drafts\<lparr>type := File\<rparr>]\<rparr>)
       = Inr [\<lparr>meta = Some hello_meta, slug = js ''drafts''\<rparr>]
   \<and> getPosts (blog_subdir\<lparr>blog_dir := Dir [drafts]\<rparr>)
       = Inr [\<lparr>meta = Some hello_meta, slug = js ''drafts''\<rparr>]"
proof -
  have n: "map name [drafts] = map name [drafts\<lparr>type := File\<rparr>]" by simp
  have "blog_subdir\<lparr>blog_dir := Dir [drafts]\<rparr> = blog_subdir"
    by (simp add: blog_subdir_def)
  then have r: "getPosts (blog_subdir\<lparr>blog_dir := Dir [drafts]\<rparr>)
       = Inr [\<lparr>meta = Some hello_meta, slug = js ''drafts''\<rparr>]"
    by (simp add: getPosts_blog_subdir)
  from getPosts_ignores_type [OF n, of blog_subdir, THEN conjunct1] r
  have "getPosts (blog_subdir\<lparr>blog_dir := Dir [drafts\<lparr>type := File\<rparr>]\<rparr>)
       = Inr [\<lparr>meta = Some hello_meta, slug = js ''drafts''\<rparr>]" by simp
  with n r show ?thesis by (intro conjI)
qed

section \<open>Order\<close>

text \<open>
  C6. The Index Entries are in the order of the directory listing: the entry at
  position i has the slug of the i-th directory entry and the \<^verbatim>\<open>meta\<close> of its module,
  whatever the order in which the imports settle.
\<close>

theorem getPosts_order:
  assumes "blog_dir w = Dir ds" and "getPosts w = Inr posts"
  shows "length posts = length ds
       \<and> (\<forall>i < length ds.
            slug (posts ! i) = slug_of (name (ds ! i))
          \<and> (\<exists>t ns. dynamic_import w (specifier (ds ! i)) = Fulfilled t ns
                   \<and> meta (posts ! i) = ns ''meta''))"
proof (intro conjI allI impI)
  show "length posts = length ds"
    using assms by (rule getPosts_Inr_length)
next
  fix i assume "i < length ds"
  from getPosts_Inr_nth [OF assms this]
  obtain t ns where *: "dynamic_import w (specifier (ds ! i)) = Fulfilled t ns"
    "posts ! i = \<lparr>meta = ns ''meta'', slug = slug_of (name (ds ! i))\<rparr>" by blast
  from *(2) show "slug (posts ! i) = slug_of (name (ds ! i))" by simp
  from * show "\<exists>t ns. dynamic_import w (specifier (ds ! i)) = Fulfilled t ns
      \<and> meta (posts ! i) = ns ''meta''" by simp
qed

text \<open>
  C6, at a directory of two Documents whose imports settle in the reverse of the
  listing order.
\<close>

theorem getPosts_order_witness:
  "blog_dir (blog_two 5 3) = Dir [hello_mdx, second_mdx]
   \<and> getPosts (blog_two 5 3) =
       Inr [\<lparr>meta = Some hello_meta, slug = js ''hello''\<rparr>,
            \<lparr>meta = Some second_meta, slug = js ''second''\<rparr>]
   \<and> slug_of (name hello_mdx) = js ''hello'' \<and> slug_of (name second_mdx) = js ''second''"
proof -
  let ?posts = "[\<lparr>meta = Some hello_meta, slug = js ''hello''\<rparr>,
                 \<lparr>meta = Some second_meta, slug = js ''second''\<rparr>]"
  have d: "blog_dir (blog_two 5 3) = Dir [hello_mdx, second_mdx]"
    by (simp add: dir_examples)
  have r: "getPosts (blog_two 5 3) = Inr ?posts"
    by (rule getPosts_blog_two)
  note nth = getPosts_order [OF d r, THEN conjunct2, rule_format, THEN conjunct1]
  have "slug (?posts ! 0) = slug_of (name ([hello_mdx, second_mdx] ! 0))"
    by (rule nth) simp
  moreover have "slug (?posts ! 1) = slug_of (name ([hello_mdx, second_mdx] ! 1))"
    by (rule nth) simp
  ultimately have "slug_of (name hello_mdx) = js ''hello''" "slug_of (name second_mdx) = js ''second''"
    by simp_all
  with d r show ?thesis by (intro conjI)
qed

text \<open>
  C7. Two runs of \<^verbatim>\<open>getPosts\<close> on the same directory listing, in which every import has
  the same outcome (the imports may settle at other turns in the second run), agree: a
  list of Index Entries returned by one is returned by the other, a file system error of
  one is that of the other, and one is rejected by an import exactly when the other is.
\<close>

theorem getPosts_idempotent:
  assumes dir: "blog_dir w1 = blog_dir w2"
    and imp: "\<forall>s. outcome (dynamic_import w1 s) = outcome (dynamic_import w2 s)"
  shows "(\<forall>posts. getPosts w1 = Inr posts \<longleftrightarrow> getPosts w2 = Inr posts)
       \<and> (\<forall>err. getPosts w1 = Inl (FsError err) \<longleftrightarrow> getPosts w2 = Inl (FsError err))
       \<and> ((\<exists>e. getPosts w1 = Inl (ImportError e)) \<longleftrightarrow> (\<exists>e. getPosts w2 = Inl (ImportError e)))"
proof (cases "blog_dir w1")
  case (Dir ds)
  with dir have d2: "blog_dir w2 = Dir ds" by simp
  have cb: "outcome (getPosts_callback w1 f) = outcome (getPosts_callback w2 f)" for f
    using imp by (simp add: outcome_callback)
  then have eq: "map (outcome \<circ> getPosts_callback w1) ds = map (outcome \<circ> getPosts_callback w2) ds"
    by simp
  have posts: "getPosts w1 = Inr posts \<longleftrightarrow> getPosts w2 = Inr posts" for posts
    by (simp add: getPosts_Inr_iff [OF Dir] getPosts_Inr_iff [OF d2] eq)
  have nofs: "getPosts w \<noteq> Inl (FsError err)" if "blog_dir w = Dir ds" for w :: "('a, 'b) world" and err
    using that by (simp add: getPosts_Dir split: sum.splits)
  have imperr: "(\<exists>e. getPosts w = Inl (ImportError e)) \<longleftrightarrow> (\<forall>posts. getPosts w \<noteq> Inr posts)"
    if "blog_dir w = Dir ds" for w :: "('a, 'b) world"
    using that by (simp add: getPosts_Dir split: sum.splits)
  show ?thesis
    using posts nofs [OF Dir] nofs [OF d2] imperr [OF Dir] imperr [OF d2] by simp
qed (use dir in \<open>auto simp add: getPosts_def\<close>)

text \<open>
  C7, at two runs on the same two Documents whose imports settle in opposite orders.
\<close>

theorem getPosts_idempotent_witness:
  "blog_dir (blog_two 5 3) = blog_dir (blog_two 3 5)
   \<and> dynamic_import (blog_two 5 3) (specifier hello_mdx) \<noteq> dynamic_import (blog_two 3 5) (specifier hello_mdx)
   \<and> getPosts (blog_two 5 3) =
       Inr [\<lparr>meta = Some hello_meta, slug = js ''hello''\<rparr>,
            \<lparr>meta = Some second_meta, slug = js ''second''\<rparr>]
   \<and> getPosts (blog_two 3 5) =
       Inr [\<lparr>meta = Some hello_meta, slug = js ''hello''\<rparr>,
            \<lparr>meta = Some second_meta, slug = js ''second''\<rparr>]"
proof -
  have d: "blog_dir (blog_two 5 3) = blog_dir (blog_two 3 5)"
    by (simp add: dir_examples)
  have i: "\<forall>s. outcome (dynamic_import (blog_two 5 3) s) = outcome (dynamic_import (blog_two 3 5) s)"
    by (simp add: blog_two_def import_table_def)
  have r: "getPosts (blog_two 5 3) =
       Inr [\<lparr>meta = Some hello_meta, slug = js ''hello''\<rparr>,
            \<lparr>meta = Some second_meta, slug = js ''second''\<rparr>]"
    by (rule getPosts_blog_two)
  from getPosts_idempotent [OF d i] r
  have "getPosts (blog_two 3 5) =
       Inr [\<lparr>meta = Some hello_meta, slug = js ''hello''\<rparr>,
            \<lparr>meta = Some second_meta, slug = js ''second''\<rparr>]"
    by blast
  with d r show ?thesis by (simp add: import_blog_two)
qed

section \<open>Slug derivation\<close>

text \<open>
  C3. For every filename that ends in the extension \<^verbatim>\<open>.mdx\<close>, the slug is the filename
  without its last four code units, and appending the extension to the slug gives the
  filename back.
\<close>

theorem slug_of_roundtrip:
  assumes "suffix (js ''.mdx'') fname"
  shows "slug_of fname = take (length fname - length (js ''.mdx'')) fname
       \<and> slug_of fname @ js ''.mdx'' = fname"
proof -
  from assms obtain p where p: "fname = p @ js ''.mdx''"
    by (auto simp add: suffix_def)
  then have "fname = p @ ch CHR ''.'' # js ''mdx''"
    by (simp only: js_dot_mdx)
  then have "slug_of fname = p"
    using replace_mdx_match [OF dot_not_LineTerminator, of p] by (simp add: slug_of_def)
  with p show ?thesis by simp
qed

text \<open>
  C3, at the filename \<^verbatim>\<open>hello.mdx\<close>.
\<close>

theorem slug_of_roundtrip_witness:
  "suffix (js ''.mdx'') (js ''hello.mdx'')
   \<and> slug_of (js ''hello.mdx'') = js ''hello''
   \<and> slug_of (js ''hello.mdx'') @ js ''.mdx'' = js ''hello.mdx''"
proof -
  have h: "suffix (js ''.mdx'') (js ''hello.mdx'')"
    by (simp add: suffix_def js_def)
  from slug_of_roundtrip [OF h] h show ?thesis
    by (simp add: js_def)
qed

text \<open>
  C4 fails on the code: the dot of \<^verbatim>\<open>/.mdx$/\<close> is not escaped, so it matches any code
  unit that is not a line terminator. The filename \<^verbatim>\<open>intro-to-mdx\<close> does not end in
  \<^verbatim>\<open>.mdx\<close>, and its last four code units are removed all the same.
\<close>

theorem slug_of_intro_to_mdx:
  "\<not> suffix (js ''.mdx'') (js ''intro-to-mdx'') \<and> slug_of (js ''intro-to-mdx'') = js ''intro-to''"
proof
  show "\<not> suffix (js ''.mdx'') (js ''intro-to-mdx'')"
    by (simp add: suffix_def js_def ch_def append_eq_Cons_conv)
  show "slug_of (js ''intro-to-mdx'') = js ''intro-to''"
    by (simp add: slug_of_def mdx_re_def js_def ch_def LineTerminator_def)
qed

text \<open>
  C10 fails on the code for the same reason: the filename \<^verbatim>\<open>a.mdx-mdx\<close> contains
  \<^verbatim>\<open>.mdx\<close> in a non-final position only, and its slug is not the filename. (The two
  examples of the claim hold: see \<open>slug_of_examples\<close>.)
\<close>

theorem slug_of_a_mdx_mdx:
  "slug_of (js ''a.mdx-mdx'') = js ''a.mdx'' \<and> \<not> suffix (js ''.mdx'') (js ''a.mdx-mdx'')"
proof
  show "\<not> suffix (js ''.mdx'') (js ''a.mdx-mdx'')"
    by (simp add: suffix_def js_def ch_def append_eq_Cons_conv)
  show "slug_of (js ''a.mdx-mdx'') = js ''a.mdx''"
    by (simp add: slug_of_def mdx_re_def js_def ch_def LineTerminator_def)
qed

end
